theory Spec2Isabelle
  imports Main "HOL-Library.Multiset"
begin

section \<open>Text primitives of the resume parser\<close>

text \<open>
  The program is Python; a \<open>str\<close> is a sequence of code points. A \<^typ>\<open>string\<close> here is
  a list of characters, one \<^typ>\<open>char\<close> per code point, so the model covers the texts whose
  code points are below 256. The character classes below are those of Python 3 on that range.
\<close>

definition code :: "char \<Rightarrow> int" where
  "code c = of_char c"

definition isspace :: "char \<Rightarrow> bool" where
  \<comment> \<open>\<open>str.isspace\<close>, also the class \<open>\s\<close> of \<open>re\<close> on \<open>str\<close> patterns\<close>
  "isspace c = ((9 \<le> code c \<and> code c \<le> 13) \<or> (28 \<le> code c \<and> code c \<le> 32)
                \<or> code c = 133 \<or> code c = 160)"

definition is_digit :: "char \<Rightarrow> bool" where
  \<comment> \<open>the classes \<open>[0-9]\<close> and \<open>\d\<close>\<close>
  "is_digit c = (48 \<le> code c \<and> code c \<le> 57)"

definition is_upper_az :: "char \<Rightarrow> bool" where
  "is_upper_az c = (65 \<le> code c \<and> code c \<le> 90)"

definition is_lower_az :: "char \<Rightarrow> bool" where
  "is_lower_az c = (97 \<le> code c \<and> code c \<le> 122)"

definition is_word :: "char \<Rightarrow> bool" where
  \<comment> \<open>the class \<open>\w\<close>: alphanumeric code points and the underscore\<close>
  "is_word c = (is_digit c \<or> is_upper_az c \<or> is_lower_az c \<or> code c = 95
                \<or> code c = 170 \<or> code c = 178 \<or> code c = 179 \<or> code c = 181
                \<or> code c = 185 \<or> code c = 186 \<or> (188 \<le> code c \<and> code c \<le> 190)
                \<or> (192 \<le> code c \<and> code c \<le> 214) \<or> (216 \<le> code c \<and> code c \<le> 246)
                \<or> 248 \<le> code c)"

definition lower_chr :: "char \<Rightarrow> char" where
  "lower_chr c = (if is_upper_az c \<or> (192 \<le> code c \<and> code c \<le> 222 \<and> code c \<noteq> 215)
                  then char_of (code c + 32) else c)"

definition lower :: "string \<Rightarrow> string" where
  \<comment> \<open>\<open>str.lower\<close>\<close>
  "lower s = map lower_chr s"

definition strip :: "string \<Rightarrow> string" where
  \<comment> \<open>\<open>str.strip()\<close>: white space removed at both ends\<close>
  "strip s = rev (dropWhile isspace (rev (dropWhile isspace s)))"

fun split_on :: "char \<Rightarrow> string \<Rightarrow> string list" where
  \<comment> \<open>\<open>s.split(sep)\<close> for a separator of one character\<close>
  "split_on sep [] = [[]]"
| "split_on sep (c # cs) =
     (if c = sep then [] # split_on sep cs
      else (case split_on sep cs of [] \<Rightarrow> [[c]] | p # ps \<Rightarrow> (c # p) # ps))"

fun join :: "string \<Rightarrow> string list \<Rightarrow> string" where
  \<comment> \<open>\<open>sep.join(parts)\<close>\<close>
  "join sep [] = []"
| "join sep [p] = p"
| "join sep (p # q # ps) = p @ sep @ join sep (q # ps)"

fun startswith :: "string \<Rightarrow> string \<Rightarrow> bool" where
  \<comment> \<open>\<open>s.startswith(p)\<close>, the text first\<close>
  "startswith s [] = True"
| "startswith [] (p # ps) = False"
| "startswith (c # cs) (p # ps) = (c = p \<and> startswith cs ps)"


fun contains :: "string \<Rightarrow> string \<Rightarrow> bool" where
  \<comment> \<open>\<open>needle in s\<close>, the text first\<close>
  "contains [] needle = (needle = [])"
| "contains (c # cs) needle = (startswith (c # cs) needle \<or> contains cs needle)"

fun str_nat :: "nat \<Rightarrow> string" where
  \<comment> \<open>the decimal numeral an f-string writes for a length\<close>
  "str_nat n = (if n < 10 then [char_of (48 + int n)]
                else str_nat (n div 10) @ [char_of (48 + int (n mod 10))])"

section \<open>The regular expressions of the parser and the scorer\<close>

text \<open>
  Every pattern of the program is a sequence of character classes, each with a greedy
  repetition range, and word boundaries; there are no groups and no alternatives. The
  matcher is the backtracking one of \<open>re\<close>: a greedy repetition tries the longest run
  first, and the first way to complete the whole pattern is the match.
  A position is the text before it, reversed, with the text after it.
\<close>

datatype atom =
    Rep "char \<Rightarrow> bool" nat "nat option"  \<comment> \<open>a class, taken from \<open>m\<close> to \<open>n\<close> times; \<open>None\<close> is no upper bound\<close>
  | WordBoundary                                   \<comment> \<open>\<open>\b\<close>\<close>

type_synonym pos = "string \<times> string"

fun word_next :: "string \<Rightarrow> bool" where
  "word_next [] = False"
| "word_next (c # cs) = is_word c"

fun atom_ends :: "atom \<Rightarrow> pos \<Rightarrow> pos list" where
  \<comment> \<open>the positions where one atom can end, in the order the matcher tries them\<close>
  "atom_ends (Rep cls m n) (left, rest) =
     (let run = length (takeWhile cls rest);
          hi = (case n of None \<Rightarrow> run | Some n' \<Rightarrow> min n' run)
      in map (\<lambda>j. (rev (take j rest) @ left, drop j rest)) (rev [m ..< Suc hi]))"
| "atom_ends WordBoundary (left, rest) =
     (if word_next left \<noteq> word_next rest then [(left, rest)] else [])"

primrec seq_ends :: "atom list \<Rightarrow> pos \<Rightarrow> pos list" where
  \<comment> \<open>every way to match the pattern from a position, in the order of the backtracking search\<close>
  "seq_ends [] = (\<lambda>p. [p])"
| "seq_ends (a # as) = (\<lambda>p. concat (map (seq_ends as) (atom_ends a p)))"

fun first_some :: "('a \<Rightarrow> 'b option) \<Rightarrow> 'a list \<Rightarrow> 'b option" where
  "first_some f [] = None"
| "first_some f (x # xs) = (case f x of Some y \<Rightarrow> Some y | None \<Rightarrow> first_some f xs)"

primrec first_end :: "atom list \<Rightarrow> pos \<Rightarrow> pos option" where
  \<comment> \<open>the end the search finds first\<close>
  "first_end [] = (\<lambda>p. Some p)"
| "first_end (a # as) = (\<lambda>p. first_some (first_end as) (atom_ends a p))"

fun search_from :: "atom list \<Rightarrow> string \<Rightarrow> string \<Rightarrow> string option" where
  \<comment> \<open>the leftmost match at or after a position; the result is the matched text\<close>
  "search_from pat left rest =
     (case first_end pat (left, rest) of
        Some (left', rest') \<Rightarrow> Some (take (length rest - length rest') rest)
      | None \<Rightarrow> (case rest of [] \<Rightarrow> None | c # cs \<Rightarrow> search_from pat (c # left) cs))"

definition re_search :: "atom list \<Rightarrow> string \<Rightarrow> string option" where
  \<comment> \<open>\<open>re.search(pat, s)\<close>; also the first element of \<open>re.findall(pat, s)\<close>, which is
      empty exactly when there is no match\<close>
  "re_search pat s = search_from pat [] s"

definition email_local :: "char \<Rightarrow> bool" where
  \<comment> \<open>\<open>[A-Za-z0-9._%+-]\<close>\<close>
  "email_local c = (is_upper_az c \<or> is_lower_az c \<or> is_digit c
                    \<or> c \<in> set ''._%+-'')"

definition email_domain :: "char \<Rightarrow> bool" where
  \<comment> \<open>\<open>[A-Za-z0-9.-]\<close>\<close>
  "email_domain c = (is_upper_az c \<or> is_lower_az c \<or> is_digit c \<or> c \<in> set ''.-'')"

definition email_tld :: "char \<Rightarrow> bool" where
  \<comment> \<open>\<open>[A-Z|a-z]\<close>: the bar is a member of the class\<close>
  "email_tld c = (is_upper_az c \<or> c = CHR ''|'' \<or> is_lower_az c)"

definition phone_sep :: "char \<Rightarrow> bool" where
  \<comment> \<open>\<open>[-\s\.]\<close>\<close>
  "phone_sep c = (c = CHR ''-'' \<or> isspace c \<or> c = CHR ''.'')"

definition email_pattern :: "atom list" where
  \<comment> \<open>\<open>\b[A-Za-z0-9._%+-]+@[A-Za-z0-9.-]+\.[A-Z|a-z]{2,}\b\<close>\<close>
  "email_pattern =
     [WordBoundary, Rep email_local 1 None, Rep (\<lambda>c. c = CHR ''@'') 1 (Some 1),
      Rep email_domain 1 None, Rep (\<lambda>c. c = CHR ''.'') 1 (Some 1),
      Rep email_tld 2 None, WordBoundary]"

definition phone_pattern :: "atom list" where
  \<comment> \<open>\<open>[\+]?[(]?[0-9]{1,4}[)]?[-\s\.]?[(]?[0-9]{1,4}[)]?[-\s\.]?[0-9]{1,4}[-\s\.]?[0-9]{1,9}\<close>\<close>
  "phone_pattern =
     [Rep (\<lambda>c. c = CHR ''+'') 0 (Some 1), Rep (\<lambda>c. c = CHR ''('') 0 (Some 1),
      Rep is_digit 1 (Some 4), Rep (\<lambda>c. c = CHR '')'') 0 (Some 1),
      Rep phone_sep 0 (Some 1), Rep (\<lambda>c. c = CHR ''('') 0 (Some 1),
      Rep is_digit 1 (Some 4), Rep (\<lambda>c. c = CHR '')'') 0 (Some 1),
      Rep phone_sep 0 (Some 1), Rep is_digit 1 (Some 4),
      Rep phone_sep 0 (Some 1), Rep is_digit 1 (Some 9)]"

definition metric_pattern :: "atom list" where
  \<comment> \<open>\<open>\d+[%+]?\<close>\<close>
  "metric_pattern = [Rep is_digit 1 None, Rep (\<lambda>c. c = CHR ''%'' \<or> c = CHR ''+'') 0 (Some 1)]"

section \<open>parse\_resume\<close>

datatype section_key =
    personal_info | education | experience | projects | skills | certifications
  | research | thesis | startups | achievements | languages | interests | other_sections

definition all_keys :: "section_key list" where
  \<comment> \<open>the keys of \<open>parsed_data\<close>, in the order of the dict literal\<close>
  "all_keys = [personal_info, education, experience, projects, skills, certifications,
               research, thesis, startups, achievements, languages, interests, other_sections]"

definition section_keywords :: "(section_key \<times> string list) list" where
  "section_keywords =
     [(personal_info, [''name'', ''contact'', ''email'', ''phone'', ''address'', ''profile'']),
      (education, [''education'', ''academic'', ''qualification'', ''degree'', ''university'',
                   ''college'']),
      (experience, [''experience'', ''employment'', ''work history'',
                    ''professional experience'']),
      (projects, [''projects'', ''personal projects'', ''academic projects'']),
      (skills, [''skills'', ''technical skills'', ''competencies'', ''expertise'']),
      (certifications, [''certifications'', ''certificates'', ''licenses'']),
      (research, [''research'', ''research papers'', ''publications'']),
      (thesis, [''thesis'', ''dissertation'']),
      (startups, [''startup'', ''entrepreneurship'', ''venture'']),
      (achievements, [''achievements'', ''awards'', ''honors'', ''accomplishments'']),
      (languages, [''languages'', ''language proficiency'']),
      (interests, [''interests'', ''hobbies''])]"

text \<open>
  \<open>parsed_data\<close> is created with all thirteen keys and the scan neither adds nor removes
  a key, so during the scan it is a function from the keys to their lists; the dict
  comprehension at the end builds the dict that is returned, a partial map.
\<close>

type_synonym section_map = "section_key \<rightharpoonup> string list"

record scan_state =
  parsed_data :: "section_key \<Rightarrow> string list"
  current_section :: "section_key option"
  current_content :: "string list"

definition keyword_hit :: "string \<Rightarrow> string list \<Rightarrow> bool" where
  \<comment> \<open>the inner loop over the keywords of one key; \<open>line\<close> is the stripped line\<close>
  "keyword_hit line keywords =
     list_ex (\<lambda>keyword. contains (lower line) keyword \<and> length line < 50) keywords"

definition find_header :: "string \<Rightarrow> section_key option" where
  \<comment> \<open>the outer loop over \<open>section_keywords.items()\<close>, left at the first hit\<close>
  "find_header line =
     map_option fst (find (\<lambda>(section_key, keywords). keyword_hit line keywords) section_keywords)"

definition flush :: "scan_state \<Rightarrow> section_key \<Rightarrow> string list" where
  \<comment> \<open>\<open>if current_section and current_content: parsed_data[current_section].extend(current_content)\<close>\<close>
  "flush st =
     (case current_section st of
        None \<Rightarrow> parsed_data st
      | Some k \<Rightarrow> if current_content st \<noteq> []
                  then (parsed_data st)(k := parsed_data st k @ current_content st)
                  else parsed_data st)"

definition scan_line :: "scan_state \<Rightarrow> string \<Rightarrow> scan_state" where
  \<comment> \<open>the body of \<open>for line in lines\<close>\<close>
  "scan_line st raw =
     (let line = strip raw in
      if line = [] then st
      else (case find_header line of
              Some k \<Rightarrow> \<lparr>parsed_data = flush st, current_section = Some k, current_content = []\<rparr>
            | None \<Rightarrow>
                (case current_section st of
                   Some k \<Rightarrow> st\<lparr>current_content := current_content st @ [line]\<rparr>
                 | None \<Rightarrow> st\<lparr>parsed_data :=
                             (parsed_data st)(personal_info := parsed_data st personal_info @ [line])\<rparr>)))"

definition contact_lines :: "string \<Rightarrow> string list" where
  \<comment> \<open>the lines the two pattern scans put into \<open>personal_info\<close> before the line scan\<close>
  "contact_lines all_text =
     (case re_search email_pattern all_text of None \<Rightarrow> [] | Some m \<Rightarrow> [''Email: '' @ m])
     @ (case re_search phone_pattern all_text of None \<Rightarrow> [] | Some m \<Rightarrow> [''Phone: '' @ m])"

definition initial_state :: "string list \<Rightarrow> scan_state" where
  "initial_state lines =
     \<lparr>parsed_data = (\<lambda>k. [])(personal_info := contact_lines (join '' '' lines)),
      current_section = None, current_content = []\<rparr>"

definition parse_resume :: "string \<Rightarrow> section_map" where
  "parse_resume text =
     (let lines = split_on (CHR 0x0A) text;
          final = flush (foldl scan_line (initial_state lines) lines)
      in (\<lambda>k. if final k = [] then None else Some (final k)))"

section \<open>calculate\_ats\_score\<close>

text \<open>
  A feedback line starts with one of three signs, a check mark, a cross or a warning
  sign, which are code points above 255; a line is its sign with the text after it.
  The scoring breakdown is the dict of the source in insertion order. The fields
  \<open>percentage\<close>, \<open>rating\<close> and \<open>rating_color\<close> of the result come from floating-point
  arithmetic on the score and are not modelled.
\<close>

datatype mark = Tick | Cross | Warn

type_synonym feedback_line = "mark \<times> string"

record sub_score =
  sub_score :: int
  sub_max :: int

record report =
  score :: int
  max_score :: int
  feedback :: "feedback_line list"
  scoring_breakdown :: "(string \<times> sub_score) list"
  recommendations :: "string list"

datatype py_error = AttributeError

definition get_items :: "section_map \<Rightarrow> section_key \<Rightarrow> string list" where
  \<comment> \<open>\<open>parsed_data.get(key, [])\<close>\<close>
  "get_items pd k = (case pd k of None \<Rightarrow> [] | Some v \<Rightarrow> v)"

definition has_email :: "section_map \<Rightarrow> bool" where
  "has_email pd = list_ex (\<lambda>item. contains (lower item) ''email'') (get_items pd personal_info)"

definition has_phone :: "section_map \<Rightarrow> bool" where
  "has_phone pd = list_ex (\<lambda>item. contains (lower item) ''phone'') (get_items pd personal_info)"

definition contact_score :: "section_map \<Rightarrow> int" where
  "contact_score pd = (if has_email pd then 5 else 0) + (if has_phone pd then 5 else 0)"

definition contact_feedback :: "section_map \<Rightarrow> feedback_line list" where
  "contact_feedback pd =
     [if has_email pd then (Tick, ''Email address found'') else (Cross, ''Missing email address''),
      if has_phone pd then (Tick, ''Phone number found'') else (Cross, ''Missing phone number'')]"

definition education_score :: "section_map \<Rightarrow> int" where
  "education_score pd =
     (let education_items = get_items pd education in
      if education_items \<noteq> [] then min 15 (int (length education_items) * 5) else 0)"

definition education_feedback :: "section_map \<Rightarrow> feedback_line list" where
  "education_feedback pd =
     (let education_items = get_items pd education in
      if education_items \<noteq> []
      then [(Tick, ''Education section found with '' @ str_nat (length education_items)
                   @ '' entries'')]
      else [(Cross, ''No education section found'')])"

definition has_metrics :: "string list \<Rightarrow> bool" where
  \<comment> \<open>\<open>any(bool(re.search(r"\d+[%+]?", item)) for item in experience_items)\<close>\<close>
  "has_metrics items = list_ex (\<lambda>item. re_search metric_pattern item \<noteq> None) items"

definition experience_score :: "section_map \<Rightarrow> int" where
  \<comment> \<open>the variable \<open>experience_score\<close>, which is capped only where it is used\<close>
  "experience_score pd =
     (let experience_items = get_items pd experience in
      if experience_items \<noteq> []
      then min 25 (int (length experience_items) * 5)
           + (if has_metrics experience_items then 5 else 0)
      else 0)"

definition experience_feedback :: "section_map \<Rightarrow> feedback_line list" where
  "experience_feedback pd =
     (let experience_items = get_items pd experience in
      if experience_items \<noteq> []
      then (Tick, ''Work experience section found with '' @ str_nat (length experience_items)
                  @ '' entries'')
           # (if has_metrics experience_items
              then [(Tick, ''Quantifiable achievements found (numbers/metrics)'')] else [])
      else [(Cross, ''No work experience section found'')])"

definition skills_count :: "string list \<Rightarrow> int" where
  \<comment> \<open>\<open>sum(len(item.split(",")) for item in skills_items)\<close>\<close>
  "skills_count items = sum_list (map (\<lambda>item. int (length (split_on (CHR '','') item))) items)"

definition skills_score :: "section_map \<Rightarrow> int" where
  "skills_score pd =
     (let skills_items = get_items pd skills in
      if skills_items \<noteq> [] then min 15 (skills_count skills_items) else 0)"

definition skills_feedback :: "section_map \<Rightarrow> feedback_line list" where
  "skills_feedback pd =
     (let skills_items = get_items pd skills in
      if skills_items \<noteq> []
      then [(Tick, ''Skills section found with approximately ''
                   @ str_nat (nat (skills_count skills_items)) @ '' skills'')]
      else [(Cross, ''No skills section found'')])"

definition projects_score :: "section_map \<Rightarrow> int" where
  "projects_score pd =
     (let projects_items = get_items pd projects in
      if projects_items \<noteq> [] then min 10 (int (length projects_items) * 3) else 0)"

definition projects_feedback :: "section_map \<Rightarrow> feedback_line list" where
  "projects_feedback pd =
     (let projects_items = get_items pd projects in
      if projects_items \<noteq> []
      then [(Tick, ''Projects section found with '' @ str_nat (length projects_items)
                   @ '' projects'')]
      else [(Warn, ''No projects section found'')])"

definition cert_score :: "section_map \<Rightarrow> int" where
  "cert_score pd =
     (let cert_items = get_items pd certifications in
      if cert_items \<noteq> [] then min 8 (int (length cert_items) * 2) else 0)"

definition cert_feedback :: "section_map \<Rightarrow> feedback_line list" where
  "cert_feedback pd =
     (let cert_items = get_items pd certifications in
      if cert_items \<noteq> []
      then [(Tick, ''Certifications found: '' @ str_nat (length cert_items) @ '' certificates'')]
      else [(Warn, ''No certifications listed'')])"

definition research_score :: "section_map \<Rightarrow> int" where
  "research_score pd =
     (let research_items = get_items pd research in
      if research_items \<noteq> [] then min 7 (int (length research_items) * 3) else 0)"

definition research_feedback :: "section_map \<Rightarrow> feedback_line list" where
  \<comment> \<open>the \<open>if\<close> of this criterion has no \<open>else\<close>\<close>
  "research_feedback pd =
     (let research_items = get_items pd research in
      if research_items \<noteq> []
      then [(Tick, ''Research/Publications found: '' @ str_nat (length research_items)
                   @ '' papers'')]
      else [])"

definition section_count :: "section_map \<Rightarrow> nat" where
  \<comment> \<open>\<open>len([k for k, v in parsed_data.items() if v])\<close>\<close>
  "section_count pd =
     length (filter (\<lambda>k. case pd k of None \<Rightarrow> False | Some v \<Rightarrow> v \<noteq> []) all_keys)"

definition action_verbs :: "string list" where
  "action_verbs =
     [''developed'', ''designed'', ''implemented'', ''managed'', ''led'', ''created'',
      ''built'', ''improved'', ''optimized'', ''achieved'', ''delivered'', ''launched'']"

definition found_verbs :: "string \<Rightarrow> nat" where
  \<comment> \<open>\<open>sum(1 for verb in action_verbs if verb in text_lower)\<close>\<close>
  "found_verbs full_text = length (filter (\<lambda>verb. contains (lower full_text) verb) action_verbs)"

definition formatting_score :: "section_map \<Rightarrow> string \<Rightarrow> int" where
  "formatting_score pd full_text =
     (if 4 \<le> section_count pd then 5 else 0)
     + (if 5 \<le> found_verbs full_text then 5 else if 2 \<le> found_verbs full_text then 3 else 0)"

definition formatting_feedback :: "section_map \<Rightarrow> string \<Rightarrow> feedback_line list" where
  "formatting_feedback pd full_text =
     (if 4 \<le> section_count pd then [(Tick, ''Well-structured with multiple sections'')] else [])
     @ (if 5 \<le> found_verbs full_text
        then [(Tick, ''Strong action verbs used ('' @ str_nat (found_verbs full_text)
                     @ '' found)'')]
        else if 2 \<le> found_verbs full_text
        then [(Warn, ''Some action verbs used ('' @ str_nat (found_verbs full_text)
                     @ '' found)'')]
        else [])"

definition recommend :: "section_map \<Rightarrow> string \<Rightarrow> string list" where
  \<comment> \<open>the list \<open>recommendations\<close> before the final test for emptiness\<close>
  "recommend pd full_text =
     (if contact_score pd < 10
      then [''Add complete contact information (email and phone)''] else [])
     @ (if education_score pd < 10 then [''Add or expand your education section''] else [])
     @ (if experience_score pd < 15
        then [''Add more work experience details with quantifiable achievements''] else [])
     @ (if skills_score pd < 10
        then [''Expand your skills section with relevant technical and soft skills''] else [])
     @ (if projects_score pd < 5
        then [''Include relevant projects to showcase your abilities''] else [])
     @ (if cert_score pd < 4 then [''Add professional certifications if available''] else [])
     @ (if formatting_score pd full_text < 7
        then [''Use more action verbs and improve resume structure''] else [])"

definition ats_report :: "section_map \<Rightarrow> string \<Rightarrow> report" where
  \<comment> \<open>the body of \<open>calculate_ats_score\<close> on a dict and a \<open>str\<close>\<close>
  "ats_report pd full_text =
     \<lparr>score = contact_score pd + education_score pd + min (experience_score pd) 25
              + skills_score pd + projects_score pd + cert_score pd + research_score pd
              + formatting_score pd full_text,
      max_score = 100,
      feedback = contact_feedback pd @ education_feedback pd @ experience_feedback pd
                 @ skills_feedback pd @ projects_feedback pd @ cert_feedback pd
                 @ research_feedback pd @ formatting_feedback pd full_text,
      scoring_breakdown =
        [(''Contact Information'', \<lparr>sub_score = contact_score pd, sub_max = 10\<rparr>),
         (''Education'', \<lparr>sub_score = education_score pd, sub_max = 15\<rparr>),
         (''Work Experience'', \<lparr>sub_score = min (experience_score pd) 25, sub_max = 25\<rparr>),
         (''Skills'', \<lparr>sub_score = skills_score pd, sub_max = 15\<rparr>),
         (''Projects'', \<lparr>sub_score = projects_score pd, sub_max = 10\<rparr>),
         (''Certifications'', \<lparr>sub_score = cert_score pd, sub_max = 8\<rparr>),
         (''Research & Publications'', \<lparr>sub_score = research_score pd, sub_max = 7\<rparr>),
         (''Formatting & Keywords'',
            \<lparr>sub_score = formatting_score pd full_text, sub_max = 10\<rparr>)],
      recommendations =
        (if recommend pd full_text \<noteq> [] then recommend pd full_text
         else [''Your resume looks great! Keep it updated.''])\<rparr>"

definition calculate_ats_score :: "section_map option \<Rightarrow> string option \<Rightarrow> py_error + report" where
  \<comment> \<open>\<open>None\<close> is Python's \<open>None\<close>: \<open>parsed_data.get\<close> and \<open>full_text.lower\<close> raise on it\<close>
  "calculate_ats_score parsed full_text =
     (case parsed of
        None \<Rightarrow> Inl AttributeError
      | Some pd \<Rightarrow> (case full_text of
                     None \<Rightarrow> Inl AttributeError
                   | Some t \<Rightarrow> Inr (ats_report pd t)))"

section \<open>The two endpoints of the analysis\<close>













section \<open>Notions the properties are stated with\<close>

definition scenario_text :: string where
  \<comment> \<open>the text of the specification's scenario; \<open>CHR 0x0A\<close> is the line feed\<close>
  "scenario_text =
     ''John Doe'' @ [CHR 0x0A] @ ''john@example.com'' @ [CHR 0x0A] @ ''9876543210''
     @ [CHR 0x0A, CHR 0x0A] @ ''Education'' @ [CHR 0x0A]
     @ ''BTech Computer Science, XYZ University'' @ [CHR 0x0A, CHR 0x0A]
     @ ''Skills'' @ [CHR 0x0A] @ ''Python, Go, SQL''"

definition nonblank_lines :: "string \<Rightarrow> string list" where
  \<comment> \<open>the lines the scan does not skip, stripped as the scan sees them\<close>
  "nonblank_lines text = filter (\<lambda>line. line \<noteq> []) (map strip (split_on (CHR 0x0A) text))"

definition header_lines :: "string \<Rightarrow> string list" where
  "header_lines text = filter (\<lambda>line. find_header line \<noteq> None) (nonblank_lines text)"

definition content_lines :: "string \<Rightarrow> string list" where
  "content_lines text = filter (\<lambda>line. find_header line = None) (nonblank_lines text)"

definition stored_lines :: "section_map \<Rightarrow> string list" where
  \<comment> \<open>all section lists of a map, one after the other\<close>
  "stored_lines pd = concat (map (get_items pd) all_keys)"

definition keywords_of :: "section_key \<Rightarrow> string list" where
  "keywords_of k = (case map_of section_keywords k of None \<Rightarrow> [] | Some keywords \<Rightarrow> keywords)"

definition has_keyword :: "section_key \<Rightarrow> string \<Rightarrow> bool" where
  \<comment> \<open>the lower-cased line contains some keyword of the key\<close>
  "has_keyword k line = list_ex (\<lambda>keyword. contains (lower line) keyword) (keywords_of k)"

definition keys_before :: "section_key \<Rightarrow> section_key list" where
  \<comment> \<open>the keys the keyword table declares before a key\<close>
  "keys_before k = takeWhile (\<lambda>k'. k' \<noteq> k) (map fst section_keywords)"

definition count_digits :: "string \<Rightarrow> nat" where
  "count_digits s = length (filter is_digit s)"



definition padded_header :: string where
  \<comment> \<open>a line of 50 characters: a section title and trailing blanks\<close>
  "padded_header = ''Skills'' @ replicate 44 (CHR '' '')"

definition held :: "scan_state \<Rightarrow> string list" where
  \<comment> \<open>the lines a state of the scan holds, stored or still in the buffer\<close>
  "held st = concat (map (parsed_data st) all_keys) @ current_content st"

definition kept :: "string list \<Rightarrow> string list" where
  \<comment> \<open>the stripped forms of the raw lines that are neither blank nor headers\<close>
  "kept raws = filter (\<lambda>line. find_header line = None)
                 (filter (\<lambda>line. line \<noteq> []) (map strip raws))"

definition short_mail :: string where
  \<comment> \<open>a text of one line, an email address\<close>
  "short_mail = ''a@b.co''"





section \<open>Bounds of the score\<close>

lemma skills_count_nonneg: "0 \<le> skills_count items"
  by (induction items) (simp_all add: skills_count_def)

lemma contact_score_range: "0 \<le> contact_score pd \<and> contact_score pd \<le> 10"
  by (simp add: contact_score_def)

lemma education_score_range: "0 \<le> education_score pd \<and> education_score pd \<le> 15"
  by (simp add: education_score_def Let_def)

lemma experience_score_range: "0 \<le> experience_score pd \<and> experience_score pd \<le> 30"
  by (auto simp: experience_score_def Let_def)

lemma skills_score_range: "0 \<le> skills_score pd \<and> skills_score pd \<le> 15"
  using skills_count_nonneg by (simp add: skills_score_def Let_def)

lemma projects_score_range: "0 \<le> projects_score pd \<and> projects_score pd \<le> 10"
  by (simp add: projects_score_def Let_def)

lemma cert_score_range: "0 \<le> cert_score pd \<and> cert_score pd \<le> 8"
  by (simp add: cert_score_def Let_def)

lemma research_score_range: "0 \<le> research_score pd \<and> research_score pd \<le> 7"
  by (simp add: research_score_def Let_def)

lemma formatting_score_range: "0 \<le> formatting_score pd t \<and> formatting_score pd t \<le> 10"
  by (simp add: formatting_score_def)

lemma calculate_ats_score_Some: "calculate_ats_score (Some pd) (Some t) = Inr (ats_report pd t)"
  by (simp add: calculate_ats_score_def)

text \<open>
  C4. For every section map and text the scorer returns a report whose total score lies
  between 0 and 100; the eight entries of the scoring breakdown carry the caps 10, 15, 25,
  15, 10, 8, 7 and 10 in this order, each sub-score is at most its cap, and the caps add
  up to 100.
\<close>

theorem score_bounds:
  "\<exists>r. calculate_ats_score (Some pd) (Some t) = Inr r
     \<and> 0 \<le> score r \<and> score r \<le> 100
     \<and> map (\<lambda>(name, e). (name, sub_max e)) (scoring_breakdown r)
         = [(''Contact Information'', 10), (''Education'', 15), (''Work Experience'', 25),
            (''Skills'', 15), (''Projects'', 10), (''Certifications'', 8),
            (''Research & Publications'', 7), (''Formatting & Keywords'', 10)]
     \<and> list_all (\<lambda>(name, e). sub_score e \<le> sub_max e) (scoring_breakdown r)
     \<and> sum_list (map (\<lambda>(name, e). sub_max e) (scoring_breakdown r)) = 100"
proof -
  note b = contact_score_range [of pd] education_score_range [of pd]
    experience_score_range [of pd] skills_score_range [of pd] projects_score_range [of pd]
    cert_score_range [of pd] research_score_range [of pd] formatting_score_range [of pd t]
  have "0 \<le> score (ats_report pd t)" "score (ats_report pd t) \<le> 100"
    using b by (auto simp: ats_report_def)
  moreover have "list_all (\<lambda>(name, e). sub_score e \<le> sub_max e)
                   (scoring_breakdown (ats_report pd t))"
    using b by (simp add: ats_report_def)
  ultimately show ?thesis
    by (simp add: calculate_ats_score_Some) (simp add: ats_report_def)
qed

text \<open>
  C10. For every section map and text the scorer accepts, the total score of the report
  is the sum of the score fields of the eight entries of its scoring breakdown.
\<close>

theorem score_is_breakdown_sum:
  "\<exists>r. calculate_ats_score (Some pd) (Some t) = Inr r
     \<and> length (scoring_breakdown r) = 8
     \<and> score r = sum_list (map (\<lambda>(name, e). sub_score e) (scoring_breakdown r))"
  by (simp add: calculate_ats_score_Some ats_report_def)

section \<open>The patterns as sets of matches\<close>

lemma set_atom_ends_Rep:
  "set (atom_ends (Rep cls m n) (l, r)) =
     (\<lambda>j. (rev (take j r) @ l, drop j r)) `
       {m .. (case n of None \<Rightarrow> length (takeWhile cls r)
                     | Some n' \<Rightarrow> min n' (length (takeWhile cls r)))}"
  by (simp add: Let_def atLeastLessThanSuc_atLeastAtMost del: upt_Suc)

lemma first_some_eq:
  "first_some f xs = None \<longleftrightarrow> (\<forall>x\<in>set xs. f x = None)"
  by (induction xs) (auto split: option.splits)

lemma first_some_in:
  "first_some f xs = Some y \<Longrightarrow> \<exists>x\<in>set xs. f x = Some y"
  by (induction xs) (auto split: option.splits)

lemma first_end_None: "first_end pat p = None \<longleftrightarrow> seq_ends pat p = []"
  by (induction pat arbitrary: p) (auto simp: first_some_eq)

lemma first_end_in: "first_end pat p = Some q \<Longrightarrow> q \<in> set (seq_ends pat p)"
proof (induction pat arbitrary: p)
  case Nil
  then show ?case by simp
next
  case (Cons a as)
  from Cons.prems obtain x where x: "x \<in> set (atom_ends a p)" "first_end as x = Some q"
    by (auto dest: first_some_in)
  from Cons.IH [OF x(2)] x(1) show ?case by auto
qed

lemma atom_ends_Rep_Nil:
  "atom_ends (Rep cls m n) (l, r) = [] \<longleftrightarrow>
     (case n of None \<Rightarrow> length (takeWhile cls r)
              | Some n' \<Rightarrow> min n' (length (takeWhile cls r))) < m"
  by (auto simp: Let_def simp del: upt_Suc)

lemma takeWhile_pos: "0 < length (takeWhile P r) \<longleftrightarrow> (case r of [] \<Rightarrow> False | c # cs \<Rightarrow> P c)"
  by (cases r) auto

lemma first_end_metric:
  "first_end metric_pattern (l, r) \<noteq> None \<longleftrightarrow> (case r of [] \<Rightarrow> False | c # cs \<Rightarrow> is_digit c)"
proof -
  let ?run = "length (takeWhile is_digit r)"
  let ?opt = "Rep (\<lambda>c. c = CHR ''%'' \<or> c = CHR ''+'') 0 (Some 1)"
  have opt: "atom_ends ?opt q \<noteq> []" for q
    by (cases q) (simp add: atom_ends_Rep_Nil del: atom_ends.simps)
  have "seq_ends metric_pattern (l, r) = [] \<longleftrightarrow> atom_ends (Rep is_digit 1 None) (l, r) = []"
    unfolding metric_pattern_def using opt
    by (cases "atom_ends (Rep is_digit 1 None) (l, r)") (simp_all del: atom_ends.simps)
  also have "\<dots> \<longleftrightarrow> \<not> 0 < ?run"
    by (simp add: atom_ends_Rep_Nil del: atom_ends.simps)
  finally have "first_end metric_pattern (l, r) = None \<longleftrightarrow> \<not> 0 < ?run"
    by (simp add: first_end_None)
  then have "first_end metric_pattern (l, r) \<noteq> None \<longleftrightarrow> 0 < ?run"
    by simp
  then show ?thesis
    by (simp only: takeWhile_pos)
qed

lemma search_metric:
  "search_from metric_pattern l r \<noteq> None \<longleftrightarrow> list_ex is_digit r"
proof (induction r arbitrary: l)
  case Nil
  have "first_end metric_pattern (l, []) = None"
    using first_end_metric [of l "[]"] by (cases "first_end metric_pattern (l, [])") simp_all
  then show ?case by simp
next
  case (Cons c cs)
  show ?case
  proof (cases "first_end metric_pattern (l, c # cs)")
    case None
    then have "\<not> is_digit c" using first_end_metric [of l "c # cs"] by simp
    with None Cons.IH [of "c # l"] show ?thesis by simp
  next
    case (Some q)
    then have "is_digit c" using first_end_metric [of l "c # cs"] by simp
    with Some show ?thesis by (cases q) simp
  qed
qed

lemma has_metrics_iff: "has_metrics items \<longleftrightarrow> list_ex (list_ex is_digit) items"
  using search_metric [of "[]"] by (simp add: has_metrics_def re_search_def list_ex_iff)

lemma has_metrics_append: "has_metrics items \<Longrightarrow> has_metrics (items @ [line])"
  by (simp add: has_metrics_def)

text \<open>
  C8. For every section map, the Work Experience sub-score is the minimum of 25 and
  \<open>min(25, count * 5)\<close> plus 5 when some experience line contains a digit (the pattern
  is a run of digits with an optional per cent or plus sign after it, so it matches
  exactly the lines with a digit); appending one more line to the experience section,
  everything else unchanged, never decreases it.
\<close>

theorem experience_monotone:
  "min (experience_score pd) 25
     = min 25 (min 25 (int (length (get_items pd experience)) * 5)
               + (if list_ex (list_ex is_digit) (get_items pd experience) then 5 else 0))
   \<and> min (experience_score pd) 25
       \<le> min (experience_score (pd(experience \<mapsto> get_items pd experience @ [line]))) 25
   \<and> map_of (scoring_breakdown (ats_report pd t)) ''Work Experience''
       = Some \<lparr>sub_score = min (experience_score pd) 25, sub_max = 25\<rparr>"
proof -
  have formula: "min (experience_score pd) 25
     = min 25 (min 25 (int (length (get_items pd experience)) * 5)
               + (if list_ex (list_ex is_digit) (get_items pd experience) then 5 else 0))"
    by (auto simp: experience_score_def Let_def has_metrics_iff)
  have mono: "min (experience_score pd) 25
       \<le> min (experience_score (pd(experience \<mapsto> get_items pd experience @ [line]))) 25"
    using has_metrics_append [of "get_items pd experience" line]
    by (auto simp: experience_score_def Let_def get_items_def)
  have entry: "map_of (scoring_breakdown (ats_report pd t)) ''Work Experience''
       = Some \<lparr>sub_score = min (experience_score pd) 25, sub_max = 25\<rparr>"
    by (simp add: ats_report_def)
  from formula mono entry show ?thesis by blast
qed

section \<open>Failure and missing sections\<close>






section \<open>The feedback list\<close>

text \<open>
  C6, as the code has it. The feedback list is made of the lines of the eight criteria in
  the order of the scoring table. Contact Information gives two lines, one for the email
  and one for the phone, Education, Skills, Projects and Certifications one line each,
  Work Experience one line or two; each is a check mark when the signal is there and a
  cross or a warning sign when it is not. Research gives one line when the section has
  lines and none otherwise; Formatting gives a line for each of its two signals that is
  satisfied and none for one that is not.
\<close>

theorem feedback_structure:
  "\<exists>r. calculate_ats_score (Some pd) (Some t) = Inr r
     \<and> feedback r = contact_feedback pd @ education_feedback pd @ experience_feedback pd
          @ skills_feedback pd @ projects_feedback pd @ cert_feedback pd
          @ research_feedback pd @ formatting_feedback pd t
     \<and> map fst (contact_feedback pd)
          = [if has_email pd then Tick else Cross, if has_phone pd then Tick else Cross]
     \<and> map fst (education_feedback pd)
          = [if get_items pd education \<noteq> [] then Tick else Cross]
     \<and> map fst (experience_feedback pd)
          = (if get_items pd experience \<noteq> []
             then Tick # (if has_metrics (get_items pd experience) then [Tick] else [])
             else [Cross])
     \<and> map fst (skills_feedback pd) = [if get_items pd skills \<noteq> [] then Tick else Cross]
     \<and> map fst (projects_feedback pd) = [if get_items pd projects \<noteq> [] then Tick else Warn]
     \<and> map fst (cert_feedback pd)
          = [if get_items pd certifications \<noteq> [] then Tick else Warn]
     \<and> map fst (research_feedback pd) = (if get_items pd research \<noteq> [] then [Tick] else [])
     \<and> map fst (formatting_feedback pd t)
          = (if 4 \<le> section_count pd then [Tick] else [])
            @ (if 5 \<le> found_verbs t then [Tick] else if 2 \<le> found_verbs t then [Warn] else [])"
  by (simp add: calculate_ats_score_def ats_report_def contact_feedback_def
      education_feedback_def experience_feedback_def skills_feedback_def
      projects_feedback_def cert_feedback_def research_feedback_def formatting_feedback_def
      Let_def)

text \<open>
  C6 as stated fails: for the empty section map and the empty text, Research and
  Formatting contribute no line to the feedback list.
\<close>

theorem feedback_missing_for_two_criteria:
  "calculate_ats_score (Some Map.empty) (Some []) = Inr (ats_report Map.empty [])
   \<and> research_feedback Map.empty = []
   \<and> formatting_feedback Map.empty [] = []
   \<and> feedback (ats_report Map.empty []) =
       [(Cross, ''Missing email address''), (Cross, ''Missing phone number''),
        (Cross, ''No education section found''),
        (Cross, ''No work experience section found''), (Cross, ''No skills section found''),
        (Warn, ''No projects section found''), (Warn, ''No certifications listed'')]"
  by (simp add: calculate_ats_score_def ats_report_def get_items_def
      contact_feedback_def has_email_def has_phone_def education_feedback_def
      experience_feedback_def skills_feedback_def projects_feedback_def cert_feedback_def
      research_feedback_def formatting_feedback_def section_count_def all_keys_def
      found_verbs_def action_verbs_def lower_def)

section \<open>Unsupported formats at the two endpoints\<close>










section \<open>The digits of a phone match\<close>

lemma count_digits_append: "count_digits (xs @ ys) = count_digits xs + count_digits ys"
  by (simp add: count_digits_def)

lemma count_digits_rev: "count_digits (rev xs) = count_digits xs"
  by (simp add: count_digits_def flip: rev_filter)

lemma count_digits_all: "\<forall>x\<in>set xs. is_digit x \<Longrightarrow> count_digits xs = length xs"
  by (simp add: count_digits_def)

lemma take_takeWhile_all:
  "j \<le> length (takeWhile P r) \<Longrightarrow> \<forall>x\<in>set (take j r). P x"
  by (induction r arbitrary: j) (auto simp: take_Cons split: nat.splits if_splits)

lemma atom_ends_consumed:
  assumes "q \<in> set (atom_ends a (l, r))"
  shows "\<exists>c. r = c @ snd q \<and> fst q = rev c @ l"
proof (cases a)
  case (Rep cls m n)
  with assms obtain j where "q = (rev (take j r) @ l, drop j r)"
    by (auto simp: set_atom_ends_Rep simp del: atom_ends.simps)
  then have "r = take j r @ snd q \<and> fst q = rev (take j r) @ l" by simp
  then show ?thesis by blast
next
  case WordBoundary
  with assms show ?thesis by (auto split: if_splits)
qed

lemma atom_ends_digits_mono:
  assumes "q \<in> set (atom_ends a p)"
  shows "count_digits (fst p) \<le> count_digits (fst q)"
proof -
  obtain l r where p: "p = (l, r)" by (cases p)
  from atom_ends_consumed [of q a l r] assms p
  obtain c where "fst q = rev c @ l" by auto
  then show ?thesis by (simp add: p count_digits_append)
qed

lemma atom_ends_digit_class:
  assumes "q \<in> set (atom_ends (Rep is_digit m n) p)"
  shows "count_digits (fst p) + m \<le> count_digits (fst q)"
proof -
  obtain l r where p: "p = (l, r)" by (cases p)
  from assms p obtain j where j: "m \<le> j" "j \<le> length (takeWhile is_digit r)"
    and q: "q = (rev (take j r) @ l, drop j r)"
    by (auto simp: set_atom_ends_Rep simp del: atom_ends.simps split: option.splits)
  have "length (take j r) = j"
    using j(2) length_takeWhile_le [of is_digit r] by simp
  moreover have "count_digits (take j r) = length (take j r)"
    using take_takeWhile_all [OF j(2)] by (rule count_digits_all)
  ultimately show ?thesis
    using j(1) by (simp add: p q count_digits_append count_digits_rev)
qed

lemma seq_ends_consumed:
  "q \<in> set (seq_ends pat (l, r)) \<Longrightarrow> \<exists>c. r = c @ snd q \<and> fst q = rev c @ l"
proof (induction pat arbitrary: l r)
  case Nil
  then show ?case by simp
next
  case (Cons a as)
  from Cons.prems obtain p' where p': "p' \<in> set (atom_ends a (l, r))" "q \<in> set (seq_ends as p')"
    by auto
  obtain l' r' where lr: "p' = (l', r')" by (cases p')
  from atom_ends_consumed [OF p'(1)] lr obtain c1 where c1: "r = c1 @ r'" "l' = rev c1 @ l"
    by auto
  from Cons.IH [of l' r'] p'(2) lr obtain c2 where c2: "r' = c2 @ snd q" "fst q = rev c2 @ l'"
    by auto
  from c1 c2 have "r = (c1 @ c2) @ snd q \<and> fst q = rev (c1 @ c2) @ l" by simp
  then show ?case by blast
qed

lemma seq_ends_weight:
  assumes "list_all2 (\<lambda>a w. \<forall>p q. q \<in> set (atom_ends a p)
                        \<longrightarrow> count_digits (fst p) + w \<le> count_digits (fst q)) pat ws"
    and "q \<in> set (seq_ends pat p)"
  shows "count_digits (fst p) + sum_list ws \<le> count_digits (fst q)"
  using assms
proof (induction pat ws arbitrary: p rule: list_all2_induct)
  case Nil
  then show ?case by simp
next
  case (Cons a pat w ws)
  from Cons.prems obtain p' where p': "p' \<in> set (atom_ends a p)" "q \<in> set (seq_ends pat p')"
    by auto
  from Cons.hyps(1) p'(1) have "count_digits (fst p) + w \<le> count_digits (fst p')" by blast
  moreover from Cons.IH [OF p'(2)] have "count_digits (fst p') + sum_list ws \<le> count_digits (fst q)" .
  ultimately show ?case by simp
qed

lemma phone_ends_digits:
  assumes "q \<in> set (seq_ends phone_pattern p)"
  shows "count_digits (fst p) + 4 \<le> count_digits (fst q)"
proof -
  have mono: "\<forall>p q. q \<in> set (atom_ends a p)
                 \<longrightarrow> count_digits (fst p) + 0 \<le> count_digits (fst q)" for a
    using atom_ends_digits_mono by simp
  have dig: "\<forall>p q. q \<in> set (atom_ends (Rep is_digit 1 n) p)
                 \<longrightarrow> count_digits (fst p) + 1 \<le> count_digits (fst q)" for n
    using atom_ends_digit_class [where m = 1] by blast
  have "list_all2 (\<lambda>a w. \<forall>p q. q \<in> set (atom_ends a p)
                        \<longrightarrow> count_digits (fst p) + w \<le> count_digits (fst q))
          phone_pattern [0, 0, 1, 0, 0, 0, 1, 0, 0, 1, 0, 1]"
    unfolding phone_pattern_def
    by (simp only: list_all2_Cons list_all2_Nil simp_thms) (intro conjI mono dig)
  from seq_ends_weight [OF this assms] show ?thesis by simp
qed

lemma phone_match_at:
  assumes "q \<in> set (seq_ends phone_pattern (l, r))"
  shows "4 \<le> count_digits (take (length r - length (snd q)) r)"
proof -
  from seq_ends_consumed [OF assms] obtain c where c: "r = c @ snd q" "fst q = rev c @ l"
    by blast
  from phone_ends_digits [OF assms] c(2) have "4 \<le> count_digits c"
    by (simp add: count_digits_append count_digits_rev)
  moreover from c(1) have "take (length r - length (snd q)) r = c"
    by (metis add_diff_cancel_right' append_eq_conv_conj length_append)
  ultimately show ?thesis by simp
qed

lemma search_from_phone:
  "search_from phone_pattern l r = Some m \<Longrightarrow> 4 \<le> count_digits m"
proof (induction r arbitrary: l)
  case Nil
  show ?case
  proof (cases "first_end phone_pattern (l, [])")
    case None
    with Nil show ?thesis by simp
  next
    case (Some q)
    from first_end_in [OF Some] have "4 \<le> count_digits (take (length ([]::string) - length (snd q)) [])"
      by (rule phone_match_at)
    then show ?thesis by (simp add: count_digits_def)
  qed
next
  case (Cons c cs)
  show ?case
  proof (cases "first_end phone_pattern (l, c # cs)")
    case None
    with Cons.prems have "search_from phone_pattern (c # l) cs = Some m" by simp
    then show ?thesis by (rule Cons.IH)
  next
    case (Some q)
    from first_end_in [OF Some]
    have "4 \<le> count_digits (take (length (c # cs) - length (snd q)) (c # cs))"
      by (rule phone_match_at)
    moreover from Some Cons.prems have "m = take (length (c # cs) - length (snd q)) (c # cs)"
      by (cases q) simp
    ultimately show ?thesis by simp
  qed
qed

text \<open>
  C7, as the code has it. Every string the phone-number pattern matches contains at least
  4 digits: the pattern has four digit groups, of 1 to 4, 1 to 4, 1 to 4 and 1 to 9
  digits. This holds for every way the pattern can match at any position, and so for the
  match that the search over a text finds first.
\<close>

theorem phone_match_has_four_digits:
  "(q \<in> set (seq_ends phone_pattern (l, r))
      \<longrightarrow> 4 \<le> count_digits (take (length r - length (snd q)) r))
   \<and> (re_search phone_pattern text = Some m \<longrightarrow> 4 \<le> count_digits m)"
  using phone_match_at [of q l r] search_from_phone [of "[]" "text" m]
  by (simp add: re_search_def)

lemma phone_1234: "re_search phone_pattern ''ext 1234'' = Some ''1234''"
  by code_simp

text \<open>The pattern matches \<open>1234\<close>.\<close>

theorem phone_match_has_four_digits_witness:
  "(''4321'', []) \<in> set (seq_ends phone_pattern ([], ''1234''))
   \<and> re_search phone_pattern ''ext 1234'' = Some ''1234''
   \<and> 4 \<le> count_digits ''1234''"
proof -
  have a: "(''4321'', []) \<in> set (seq_ends phone_pattern ([], ''1234''))"
    by code_simp
  from phone_match_has_four_digits [of "(''4321'', [])" "[]" "''1234''" "''ext 1234''" "''1234''"]
    a phone_1234
  show ?thesis by simp
qed

lemma count_digits_1234: "count_digits ''1234'' = 4"
  by code_simp

text \<open>
  C7 as stated fails: in the text \<open>ext 1234\<close> the pattern matches \<open>1234\<close>, which has
  four digits and not seven.
\<close>

theorem phone_match_with_four_digits:
  "re_search phone_pattern ''ext 1234'' = Some ''1234'' \<and> count_digits ''1234'' = 4
   \<and> \<not> 7 \<le> count_digits ''1234''"
  using phone_1234 count_digits_1234 by simp

section \<open>Header detection\<close>

lemma startswith_iff: "startswith s p \<longleftrightarrow> (\<exists>v. s = p @ v)"
  by (induction s p rule: startswith.induct) auto

lemma contains_iff: "contains s n \<longleftrightarrow> (\<exists>u v. s = u @ n @ v)"
proof (induction s)
  case Nil
  then show ?case by auto
next
  case (Cons c cs)
  show ?case
  proof
    assume "contains (c # cs) n"
    then consider "startswith (c # cs) n" | "contains cs n" by auto
    then show "\<exists>u v. c # cs = u @ n @ v"
    proof cases
      case 1
      then obtain v where "c # cs = [] @ n @ v" by (auto simp: startswith_iff)
      then show ?thesis by blast
    next
      case 2
      with Cons.IH obtain u v where "cs = u @ n @ v" by blast
      then have "c # cs = (c # u) @ n @ v" by simp
      then show ?thesis by blast
    qed
  next
    assume "\<exists>u v. c # cs = u @ n @ v"
    then obtain u v where uv: "c # cs = u @ n @ v" by blast
    show "contains (c # cs) n"
    proof (cases u)
      case Nil
      with uv have "startswith (c # cs) n" by (auto simp: startswith_iff)
      then show ?thesis by simp
    next
      case (Cons d u')
      with uv have "cs = u' @ n @ v" by simp
      with Cons.IH have "contains cs n" by blast
      then show ?thesis by simp
    qed
  qed
qed

lemma find_first_key:
  assumes "distinct (map fst tbl)"
  shows "map_option fst (find (\<lambda>(k, kws). Q kws) tbl) = Some k \<longleftrightarrow>
     (\<exists>kws. map_of tbl k = Some kws \<and> Q kws)
     \<and> list_all (\<lambda>k'. \<forall>kws. map_of tbl k' = Some kws \<longrightarrow> \<not> Q kws)
          (takeWhile (\<lambda>k'. k' \<noteq> k) (map fst tbl))"
  using assms
proof (induction tbl)
  case Nil
  then show ?case by simp
next
  case (Cons e tbl)
  obtain k0 kws0 where e: "e = (k0, kws0)" by (cases e)
  from Cons.prems e have notin: "k0 \<notin> fst ` set tbl" and d: "distinct (map fst tbl)" by auto
  show ?case
  proof (cases "Q kws0")
    case True
    then show ?thesis using e by auto
  next
    case False
    show ?thesis
    proof (cases "k = k0")
      case True
      have "find (\<lambda>(k, kws). Q kws) tbl \<noteq> Some (k0, x)" for x
        using notin by (auto simp: find_Some_iff image_iff) (metis fst_conv nth_mem)
      then have "map_option fst (find (\<lambda>(k, kws). Q kws) tbl) \<noteq> Some k0"
        by auto
      with False True e show ?thesis by simp
    next
      case neq: False
      have X: "(k' \<noteq> k0 \<longrightarrow> (\<forall>kws. map_of tbl k' = Some kws \<longrightarrow> \<not> Q kws))
                 = (\<forall>kws. map_of tbl k' = Some kws \<longrightarrow> \<not> Q kws)" for k'
        using notin by (force dest: map_of_SomeD)
      from False neq e Cons.IH [OF d] show ?thesis by (simp add: X)
    qed
  qed
qed

lemma keyword_hit_iff:
  "keyword_hit line kws \<longleftrightarrow> length line < 50 \<and> list_ex (\<lambda>kw. contains (lower line) kw) kws"
  by (auto simp: keyword_hit_def list_ex_iff)

lemma distinct_section_keywords: "distinct (map fst section_keywords)"
  by (simp add: section_keywords_def)

lemma find_header_iff:
  "find_header line = Some k \<longleftrightarrow>
     length line < 50 \<and> has_keyword k line
     \<and> list_all (\<lambda>k'. \<not> has_keyword k' line) (keys_before k)"
proof -
  have A: "(\<exists>kws. map_of section_keywords k = Some kws \<and> keyword_hit line kws)
           \<longleftrightarrow> length line < 50 \<and> has_keyword k line"
    by (cases "map_of section_keywords k")
       (auto simp: has_keyword_def keywords_of_def keyword_hit_iff)
  have B: "(\<forall>kws. map_of section_keywords k' = Some kws \<longrightarrow> \<not> keyword_hit line kws)
           \<longleftrightarrow> \<not> has_keyword k' line" if "length line < 50" for k'
    using that by (cases "map_of section_keywords k'")
       (auto simp: has_keyword_def keywords_of_def keyword_hit_iff)
  have C: "length line < 50 \<Longrightarrow>
     list_all (\<lambda>k'. \<forall>kws. map_of section_keywords k' = Some kws \<longrightarrow> \<not> keyword_hit line kws) ks
     = list_all (\<lambda>k'. \<not> has_keyword k' line) ks" for ks
    using B by (simp add: list_all_iff)
  show ?thesis
    unfolding find_header_def keys_before_def
      find_first_key [OF distinct_section_keywords, of "keyword_hit line" k] A
    using C by auto
qed

text \<open>
  C3, as the code has it. A non-blank line of the input is stripped of the white space at
  its ends before it is tested. It is classified as a header for the key K if and only if
  the stripped line is shorter than 50 characters, its lower-cased form contains a keyword
  of K as a substring, and it contains no keyword of a key declared before K in the
  keyword table: the keys are tested in declaration order and the first hit wins. A
  header switches the current section and is not stored.
\<close>

theorem header_classification:
  assumes "strip raw \<noteq> []"
  shows "(find_header (strip raw) = Some k \<longleftrightarrow>
            length (strip raw) < 50 \<and> has_keyword k (strip raw)
            \<and> list_all (\<lambda>k'. \<not> has_keyword k' (strip raw)) (keys_before k))
         \<and> (has_keyword k (strip raw) \<longleftrightarrow>
              list_ex (\<lambda>keyword. \<exists>u v. lower (strip raw) = u @ keyword @ v) (keywords_of k))
         \<and> (find_header (strip raw) = Some k \<longrightarrow>
              scan_line st raw
                = \<lparr>parsed_data = flush st, current_section = Some k, current_content = []\<rparr>)"
proof -
  have "has_keyword k (strip raw) \<longleftrightarrow>
          list_ex (\<lambda>keyword. \<exists>u v. lower (strip raw) = u @ keyword @ v) (keywords_of k)"
    by (simp add: has_keyword_def contains_iff)
  moreover have "find_header (strip raw) = Some k \<longrightarrow>
          scan_line st raw
            = \<lparr>parsed_data = flush st, current_section = Some k, current_content = []\<rparr>"
    using assms by (simp add: scan_line_def Let_def)
  ultimately show ?thesis
    using find_header_iff [of "strip raw" k] by blast
qed

lemma work_history:
  "strip ''  Work History  '' = ''Work History''"
  "find_header ''Work History'' = Some experience"
  by code_simp+

text \<open>A header with blanks around it.\<close>

theorem header_classification_witness:
  "strip ''  Work History  '' \<noteq> []
   \<and> find_header (strip ''  Work History  '') = Some experience
   \<and> length (strip ''  Work History  '') < 50
   \<and> has_keyword experience (strip ''  Work History  '')
   \<and> list_all (\<lambda>k'. \<not> has_keyword k' (strip ''  Work History  '')) (keys_before experience)
   \<and> scan_line \<lparr>parsed_data = (\<lambda>k. []), current_section = None, current_content = []\<rparr>
        ''  Work History  ''
      = \<lparr>parsed_data = (\<lambda>k. []), current_section = Some experience, current_content = []\<rparr>"
  using header_classification [of "''  Work History  ''" experience
      "\<lparr>parsed_data = (\<lambda>k. []), current_section = None, current_content = []\<rparr>"]
  by (simp add: work_history flush_def)

lemma padded_header_facts:
  "length padded_header = 50"
  "strip padded_header = ''Skills''"
  "find_header ''Skills'' = Some skills"
  "has_keyword skills padded_header"
  by code_simp+

text \<open>
  C3 as stated fails: a line of 50 characters, \<open>Skills\<close> and 44 blanks, is not shorter
  than 50 characters and is classified as the header of the skills section.
\<close>

theorem padded_header_classified:
  "strip padded_header \<noteq> []
   \<and> has_keyword skills padded_header
   \<and> \<not> length padded_header < 50
   \<and> current_section
        (scan_line \<lparr>parsed_data = (\<lambda>k. []), current_section = None, current_content = []\<rparr>
           padded_header) = Some skills"
  by (simp add: padded_header_facts scan_line_def)

section \<open>Every line is accounted for\<close>

lemma mset_concat_update:
  "mset (concat (map (f(k := f k @ xs)) all_keys)) = mset (concat (map f all_keys)) + mset xs"
  by (cases k) (simp_all add: all_keys_def)

lemma mset_flush:
  assumes "current_section st = None \<longrightarrow> current_content st = []"
  shows "mset (concat (map (flush st) all_keys)) = mset (held st)"
  using assms
  by (cases "current_section st") (simp_all add: flush_def held_def mset_concat_update)

lemma scan_line_inv:
  assumes "current_section st = None \<longrightarrow> current_content st = []"
  shows "current_section (scan_line st raw) = None \<longrightarrow> current_content (scan_line st raw) = []"
  using assms
  by (auto simp: scan_line_def Let_def split: option.splits)

lemma kept_Cons: "kept (raw # raws) = kept [raw] @ kept raws"
  by (simp add: kept_def)

lemma scan_line_held:
  assumes "current_section st = None \<longrightarrow> current_content st = []"
  shows "mset (held (scan_line st raw)) = mset (held st) + mset (kept [raw])"
proof (cases "strip raw = []")
  case True
  then show ?thesis by (simp add: scan_line_def kept_def)
next
  case nonblank: False
  show ?thesis
  proof (cases "find_header (strip raw)")
    case (Some k)
    with nonblank mset_flush [OF assms] show ?thesis
      by (simp add: scan_line_def held_def kept_def)
  next
    case None
    show ?thesis
    proof (cases "current_section st")
      case (Some k)
      with None nonblank show ?thesis
        by (simp add: scan_line_def held_def kept_def)
    next
      case no_section: None
      with None nonblank assms show ?thesis
        by (simp add: scan_line_def held_def kept_def mset_concat_update)
    qed
  qed
qed

lemma foldl_scan_line:
  assumes "current_section st = None \<longrightarrow> current_content st = []"
  shows "(current_section (foldl scan_line st raws) = None
            \<longrightarrow> current_content (foldl scan_line st raws) = [])
         \<and> mset (held (foldl scan_line st raws)) = mset (held st) + mset (kept raws)"
  using assms
proof (induction raws arbitrary: st)
  case Nil
  then show ?case by (simp add: kept_def)
next
  case (Cons raw raws)
  let ?st = "scan_line st raw"
  from scan_line_inv [OF Cons.prems]
  have inv: "current_section ?st = None \<longrightarrow> current_content ?st = []" .
  from Cons.IH [OF inv]
  have a: "current_section (foldl scan_line ?st raws) = None
            \<longrightarrow> current_content (foldl scan_line ?st raws) = []"
    and b: "mset (held (foldl scan_line ?st raws)) = mset (held ?st) + mset (kept raws)"
    by blast+
  from scan_line_held [OF Cons.prems, of raw]
  have c: "mset (held ?st) = mset (held st) + mset (kept [raw])" .
  have "mset (held (foldl scan_line ?st raws)) = mset (held st) + mset (kept (raw # raws))"
    unfolding b c kept_Cons [of raw raws] by simp
  with a show ?case by simp
qed

lemma stored_lines_final:
  "stored_lines (\<lambda>k. if final k = [] then None else Some (final k)) = concat (map final all_keys)"
proof -
  have "get_items (\<lambda>k. if final k = [] then None else Some (final k)) = final"
    by (rule ext) (simp add: get_items_def)
  then show ?thesis by (simp add: stored_lines_def)
qed

lemma held_initial: "held (initial_state raws) = contact_lines (join '' '' raws)"
  by (simp add: held_def initial_state_def all_keys_def)

lemma stored_lines_parse:
  "mset (stored_lines (parse_resume text))
     = mset (contact_lines (join '' '' (split_on (CHR 0x0A) text))) + mset (content_lines text)"
proof -
  let ?raws = "split_on (CHR 0x0A) text"
  let ?st = "foldl scan_line (initial_state ?raws) ?raws"
  have init: "current_section (initial_state ?raws) = None \<longrightarrow> current_content (initial_state ?raws) = []"
    by (simp add: initial_state_def)
  from foldl_scan_line [OF init, of ?raws]
  have inv: "current_section ?st = None \<longrightarrow> current_content ?st = []"
    and h: "mset (held ?st) = mset (held (initial_state ?raws)) + mset (content_lines text)"
    by (simp_all add: content_lines_def nonblank_lines_def kept_def)
  have "stored_lines (parse_resume text) = concat (map (flush ?st) all_keys)"
    by (simp add: parse_resume_def Let_def stored_lines_final)
  with mset_flush [OF inv] h show ?thesis by (simp add: held_initial)
qed

lemma length_contact_lines: "length (contact_lines s) \<le> 2"
  by (simp add: contact_lines_def split: option.splits)

text \<open>
  C2, as the code has it. The section lists of the result hold, each occurrence once, the
  stripped non-blank lines that are not headers, and in addition the lines the two
  pattern scans put into \<open>personal_info\<close>: one when the email pattern matches the joined
  text and one when the phone pattern does. So the number of lines in all section lists
  plus the number of header lines is the number of non-blank input lines plus the number
  of these contact lines, which is 0, 1 or 2.
\<close>

theorem lines_accounted_for:
  "mset (stored_lines (parse_resume text))
     = mset (contact_lines (join '' '' (split_on (CHR 0x0A) text))) + mset (content_lines text)
   \<and> length (stored_lines (parse_resume text)) + length (header_lines text)
     = length (nonblank_lines text)
       + length (contact_lines (join '' '' (split_on (CHR 0x0A) text)))
   \<and> length (contact_lines (join '' '' (split_on (CHR 0x0A) text)))
     = (case re_search email_pattern (join '' '' (split_on (CHR 0x0A) text)) of
          None \<Rightarrow> 0 | Some m \<Rightarrow> 1)
       + (case re_search phone_pattern (join '' '' (split_on (CHR 0x0A) text)) of
            None \<Rightarrow> 0 | Some m \<Rightarrow> 1)"
proof -
  let ?c = "contact_lines (join '' '' (split_on (CHR 0x0A) text))"
  have m: "mset (stored_lines (parse_resume text)) = mset ?c + mset (content_lines text)"
    by (rule stored_lines_parse)
  from arg_cong [OF m, of size]
  have "length (stored_lines (parse_resume text)) = length ?c + length (content_lines text)"
    by simp
  moreover have "length (content_lines text) + length (header_lines text) = length (nonblank_lines text)"
    unfolding content_lines_def header_lines_def
    using sum_length_filter_compl [of "\<lambda>line. find_header line = None" "nonblank_lines text"]
    by simp
  ultimately have n: "length (stored_lines (parse_resume text)) + length (header_lines text)
     = length (nonblank_lines text) + length ?c"
    by simp
  have c: "length ?c
     = (case re_search email_pattern (join '' '' (split_on (CHR 0x0A) text)) of
          None \<Rightarrow> 0 | Some m \<Rightarrow> 1)
       + (case re_search phone_pattern (join '' '' (split_on (CHR 0x0A) text)) of
            None \<Rightarrow> 0 | Some m \<Rightarrow> 1)"
    by (simp add: contact_lines_def split: option.splits)
  from m n c show ?thesis by blast
qed

lemma short_mail_parse:
  "stored_lines (parse_resume short_mail) = [''Email: a@b.co'', ''a@b.co'']"
  "header_lines short_mail = []"
  "nonblank_lines short_mail = [''a@b.co'']"
  unfolding short_mail_def by code_simp+

text \<open>
  C2 as stated fails: the text of the single line \<open>a@b.co\<close> has one non-blank line and no
  header, and the result holds two lines, the line itself and the email line made from it.
\<close>

theorem email_line_counted_twice:
  "length (stored_lines (parse_resume short_mail)) + length (header_lines short_mail) = 2
   \<and> length (nonblank_lines short_mail) = 1"
  by (simp add: short_mail_parse)

section \<open>The scenario of the specification\<close>

lemma scenario_parse:
  "map (parse_resume scenario_text) all_keys
     = [Some [''Email: john@example.com'', ''Phone: 9876543210'', ''John Doe'',
              ''john@example.com'', ''9876543210''],
        None, None, None, Some [''Python, Go, SQL''],
        None, None, None, None, None, None, None, None]"
  unfolding scenario_text_def by code_simp

lemma scenario_sections:
  "parse_resume scenario_text personal_info
     = Some [''Email: john@example.com'', ''Phone: 9876543210'', ''John Doe'',
             ''john@example.com'', ''9876543210'']"
  "parse_resume scenario_text education = None"
  "parse_resume scenario_text skills = Some [''Python, Go, SQL'']"
  using scenario_parse by (simp_all add: all_keys_def)

lemma scenario_header:
  "find_header ''BTech Computer Science, XYZ University'' = Some education"
  by code_simp

lemma scenario_skills_count: "skills_count [''Python, Go, SQL''] = 3"
  by code_simp

lemma scenario_scores:
  "skills_score (parse_resume scenario_text) = 3"
  "education_score (parse_resume scenario_text) = 0"
  by (simp_all add: skills_score_def education_score_def get_items_def scenario_sections
      scenario_skills_count)

text \<open>
  C1, as the code has it. Parsing the scenario text gives a \<open>personal_info\<close> list of five
  lines: the email line, the phone line, and the three lines before the first header, of
  which the address and the number are stored as they stand. The line after the
  \<open>Education\<close> header contains the keyword \<open>university\<close> and is shorter than 50
  characters, so it is a header itself and the result has no \<open>education\<close> entry. The
  \<open>skills\<close> list is the one line of skills. Scoring the map gives a Skills sub-score of
  3 and an Education sub-score of 0.
\<close>

theorem scenario_result:
  "parse_resume scenario_text personal_info
     = Some [''Email: john@example.com'', ''Phone: 9876543210'', ''John Doe'',
             ''john@example.com'', ''9876543210'']
   \<and> parse_resume scenario_text education = None
   \<and> find_header ''BTech Computer Science, XYZ University'' = Some education
   \<and> parse_resume scenario_text skills = Some [''Python, Go, SQL'']
   \<and> (\<exists>r. calculate_ats_score (Some (parse_resume scenario_text)) (Some scenario_text) = Inr r
          \<and> map_of (scoring_breakdown r) ''Skills'' = Some \<lparr>sub_score = 3, sub_max = 15\<rparr>
          \<and> map_of (scoring_breakdown r) ''Education'' = Some \<lparr>sub_score = 0, sub_max = 15\<rparr>)"
  by (simp add: scenario_sections scenario_header scenario_scores calculate_ats_score_def
      ats_report_def)

text \<open>
  C1 as stated fails: \<open>personal_info\<close> is not the list of three lines, \<open>education\<close> is
  not the list of the one line, and the Education sub-score is not 5.
\<close>

theorem scenario_not_as_specified:
  "parse_resume scenario_text personal_info
     \<noteq> Some [''Email: john@example.com'', ''Phone: 9876543210'', ''John Doe'']
   \<and> parse_resume scenario_text education
     \<noteq> Some [''BTech Computer Science, XYZ University'']
   \<and> education_score (parse_resume scenario_text) \<noteq> 5"
  by (simp add: scenario_sections scenario_scores)

end
